theory Spec2Isabelle
  imports Main "HOL-Library.Sublist"
begin

section \<open>Python strings\<close>

text \<open>
  A Python \<^verbatim>\<open>str\<close> is a sequence of Unicode code points. The bullet glyphs tested by
  \<^verbatim>\<open>detect_list_type\<close> and the white space removed by \<^verbatim>\<open>str.strip\<close> lie
  outside ASCII, so a string is a list of code points (natural numbers), and \<open>py\<close> turns
  an ASCII literal into such a list.
\<close>

type_synonym pystr = "nat list"

abbreviation py :: "string \<Rightarrow> pystr" where
  "py s \<equiv> map of_char s"

text \<open>The code points for which \<^verbatim>\<open>str.isspace\<close> holds; \<^verbatim>\<open>strip()\<close> removes exactly these.\<close>

definition py_isspace :: "nat \<Rightarrow> bool" where
  "py_isspace c \<longleftrightarrow>
     (9 \<le> c \<and> c \<le> 13) \<or> (28 \<le> c \<and> c \<le> 32) \<or> c = 133 \<or> c = 160 \<or> c = 5760 \<or>
     (8192 \<le> c \<and> c \<le> 8202) \<or> c = 8232 \<or> c = 8233 \<or> c = 8239 \<or> c = 8287 \<or> c = 12288"

definition py_strip :: "pystr \<Rightarrow> pystr" where
  "py_strip s = rev (dropWhile py_isspace (rev (dropWhile py_isspace s)))"

definition py_startswith :: "pystr \<Rightarrow> pystr \<Rightarrow> bool" where
  "py_startswith s p \<longleftrightarrow> take (length p) s = p"

text \<open>\<^verbatim>\<open>sub in s\<close>: \<open>sub\<close> occurs in \<open>s\<close> as a contiguous block.\<close>

fun py_contains :: "pystr \<Rightarrow> pystr \<Rightarrow> bool" where
  "py_contains sub [] \<longleftrightarrow> sub = []"
| "py_contains sub (c # cs) \<longleftrightarrow> py_startswith (c # cs) sub \<or> py_contains sub cs"

text \<open>\<^verbatim>\<open>s.replace(old, new)\<close> for a pattern \<open>old\<close> of one character.\<close>

definition py_replace :: "nat \<Rightarrow> pystr \<Rightarrow> pystr \<Rightarrow> pystr" where
  "py_replace old new s = concat (map (\<lambda>c. if c = old then new else [c]) s)"

text \<open>\<^verbatim>\<open>s.split(sep)\<close> for a separator of one character: never an empty list.\<close>

fun py_split :: "nat \<Rightarrow> pystr \<Rightarrow> pystr list" where
  "py_split sep [] = [[]]"
| "py_split sep (c # cs) =
     (if c = sep then [] # py_split sep cs
      else (case py_split sep cs of
              [] \<Rightarrow> [[c]]
            | l # ls \<Rightarrow> (c # l) # ls))"

fun py_join :: "pystr \<Rightarrow> pystr list \<Rightarrow> pystr" where
  "py_join sep [] = []"
| "py_join sep [x] = x"
| "py_join sep (x # y # ys) = x @ sep @ py_join sep (y # ys)"

text \<open>
  \<^verbatim>\<open>str.lower\<close> on the letters A to Z. Beyond ASCII the only code points whose
  lower-case form holds an ASCII letter are U+0130 (an \<open>i\<close>) and U+212A (a \<open>k\<close>);
  neither letter occurs in \<open>bullet\<close> or \<open>number\<close>, the two words that are looked for
  in a lower-cased style name, so other code points are left as they are.
\<close>

definition py_lower :: "pystr \<Rightarrow> pystr" where
  "py_lower s = map (\<lambda>c. if 65 \<le> c \<and> c \<le> 90 then c + 32 else c) s"

function dec_digits :: "nat \<Rightarrow> pystr" where
  "dec_digits n = (if n < 10 then [48 + n] else dec_digits (n div 10) @ [48 + n mod 10])"
  by pat_completeness auto
termination
  by (relation "measure id") auto

definition hex_digit :: "nat \<Rightarrow> nat" where
  "hex_digit d = (if d < 10 then 48 + d else 55 + d)"

function hex_digits :: "nat \<Rightarrow> pystr" where
  "hex_digits n = (if n < 16 then [hex_digit n] else hex_digits (n div 16) @ [hex_digit (n mod 16)])"
  by pat_completeness auto
termination
  by (relation "measure id") auto

text \<open>\<^verbatim>\<open>'%02X' % n\<close>: upper-case hexadecimal, at least two digits.\<close>

definition hex02 :: "nat \<Rightarrow> pystr" where
  "hex02 n = (if n < 16 then 48 # hex_digits n else hex_digits n)"

text \<open>
  \<^verbatim>\<open>f"{size.pt:.2f}"\<close> for a length of \<open>emu\<close> English Metric Units, 12700 to the
  point: the quotient rounded to the nearest hundredth. No length is half way between
  two hundredths (that would need \<open>2 * emu = 254 * k + 127\<close>), so the rounding mode plays
  no part; the binary rounding of the quotient itself is not modelled.
\<close>

definition fmt_pt_2f :: "int \<Rightarrow> pystr" where
  "fmt_pt_2f emu =
     (let h = (2 * nat \<bar>emu\<bar> + 127) div 254
      in (if emu < 0 then py ''-'' else []) @ dec_digits (h div 100) @ py ''.'' @
         [48 + h mod 100 div 10, 48 + h mod 10])"

section \<open>The document model\<close>

text \<open>
  What \<^verbatim>\<open>app.py\<close> reads of a python-docx run: its text, the tri-state \<^verbatim>\<open>bold\<close> and
  \<^verbatim>\<open>italic\<close>, the font size (a length or \<^verbatim>\<open>None\<close>), the font name, the explicit
  RGB colour, the \<^verbatim>\<open>r:id\<close> attribute of every \<^verbatim>\<open>w:hyperlink\<close> element below the run
  (the result of the XPath query, in document order; \<open>None\<close> where the attribute is
  missing), and the dictionary \<^verbatim>\<open>run.part.related_parts\<close>, given by the
  \<^verbatim>\<open>target_ref\<close> of each entry.
\<close>

record run =
  run_text :: pystr
  bold :: "bool option"
  italic :: "bool option"
  font_size :: "int option"
  font_name :: "pystr option"
  font_color_rgb :: "(nat \<times> nat \<times> nat) option"
  hyperlinks :: "pystr option list"
  related_parts :: "pystr \<rightharpoonup> pystr"

text \<open>
  The numbering properties of a paragraph are an XML element. Python's truth test of
  such an element (\<^verbatim>\<open>if numPr:\<close>) asks whether it has child nodes, not whether it
  is there: the children are the optional \<^verbatim>\<open>w:ilvl\<close> and \<^verbatim>\<open>w:numId\<close> and
  whatever else the document holds at that place.
\<close>

record numPr_elem =
  ilvl :: "int option"
  numId :: "int option"
  other_children :: nat

definition elem_len :: "numPr_elem \<Rightarrow> nat" where
  "elem_len e =
     (case ilvl e of None \<Rightarrow> 0 | Some _ \<Rightarrow> 1) + (case numId e of None \<Rightarrow> 0 | Some _ \<Rightarrow> 1) +
     other_children e"

definition elem_truth :: "numPr_elem \<Rightarrow> bool" where
  "elem_truth e \<longleftrightarrow> 0 < elem_len e"

record pPr_elem =
  numPr :: "numPr_elem option"

text \<open>
  What \<^verbatim>\<open>app.py\<close> reads of a paragraph: the name of its style (a string), its text,
  its runs, and the paragraph properties \<^verbatim>\<open>_p.pPr\<close> with their numbering properties,
  each of the two there or not.
\<close>

record para =
  style_name :: pystr
  para_text :: pystr
  runs :: "run list"
  pPr :: "pPr_elem option"

datatype py_error = KeyError pystr

section \<open>Rendering a run\<close>

definition str_rgb :: "nat \<times> nat \<times> nat \<Rightarrow> pystr" where
  "str_rgb c = (case c of (r, g, b) \<Rightarrow> hex02 r @ hex02 g @ hex02 b)"

text \<open>Lines 36 to 57: the clauses of the style attribute, in the order they are appended.\<close>

definition style_str :: "run \<Rightarrow> pystr" where
  "style_str run =
     (if bold run = Some True then py ''font-weight:bold;'' else py ''font-weight:normal;'') @
     (if italic run = Some True then py ''font-style:italic;'' else []) @
     (case font_size run of
        None \<Rightarrow> []
      | Some sz \<Rightarrow> if sz = 0 then [] else py ''font-size:'' @ fmt_pt_2f sz @ py ''pt;'') @
     (case font_name run of
        None \<Rightarrow> []
      | Some n \<Rightarrow> if n = [] then [] else py ''font-family:'' @ [39] @ n @ [39] @ py '';'') @
     (case font_color_rgb run of
        None \<Rightarrow> []
      | Some c \<Rightarrow> py ''color:#'' @ str_rgb c @ py '';'')"

text \<open>Line 29: the three replacements, in the order they are applied.\<close>

definition escape_html :: "pystr \<Rightarrow> pystr" where
  "escape_html t =
     py_replace 62 (py ''&gt;'') (py_replace 60 (py ''&lt;'') (py_replace 38 (py ''&amp;'') t))"

text \<open>Lines 32 to 34.\<close>

definition br_lines :: "pystr \<Rightarrow> pystr" where
  "br_lines t =
     (if 10 \<in> set t
      then py_join (py ''<br>'')
             (map py_strip (filter (\<lambda>line. py_strip line \<noteq> []) (py_split 10 t)))
      else t)"

text \<open>
  Lines 16 to 22, the value of \<^verbatim>\<open>hyperlink\<close>: \<open>None\<close> when the run has no hyperlink
  element or the first one has no (or an empty) relationship id; indexing the
  dictionary with an id that is not a key raises \<^verbatim>\<open>KeyError\<close>.
\<close>

definition hyperlink_target :: "run \<Rightarrow> py_error + pystr option" where
  "hyperlink_target run =
     (case hyperlinks run of
        [] \<Rightarrow> Inr None
      | link # _ \<Rightarrow>
          (case link of
             None \<Rightarrow> Inr None
           | Some r_id \<Rightarrow>
               if r_id = [] then Inr None
               else (case related_parts run r_id of
                       None \<Rightarrow> Inl (KeyError r_id)
                     | Some target_ref \<Rightarrow> Inr (Some target_ref))))"

definition span_html :: "run \<Rightarrow> pystr" where
  \<open>span_html run =
     (if py_strip (run_text run) = [] then []
      else py ''<span style="'' @ style_str run @ py ''">'' @
           br_lines (escape_html (run_text run)) @ py ''</span>'')\<close>

definition run_to_html :: "run \<Rightarrow> py_error + pystr" where
  \<open>run_to_html run =
     (let raw_text = py_strip (run_text run)
      in if py_startswith raw_text (py ''<img'') \<or> py_startswith raw_text (py ''<iframe'')
         then Inr raw_text
         else (case hyperlink_target run of
                 Inl e \<Rightarrow> Inl e
               | Inr hyperlink \<Rightarrow>
                   (case hyperlink of
                      None \<Rightarrow> Inr (span_html run)
                    | Some url \<Rightarrow>
                        if url = [] then Inr (span_html run)
                        else Inr (py ''<a href="'' @ url @ py ''" target="_blank">'' @
                                  py_strip (run_text run) @ py ''</a>''))))\<close>

section \<open>Classifying and rendering a paragraph\<close>

datatype list_kind = UL | OL

fun tag_name :: "list_kind \<Rightarrow> pystr" where
  "tag_name UL = py ''ul''"
| "tag_name OL = py ''ol''"

text \<open>Line 69: the bullet glyphs U+2022, hyphen-minus, U+2023, U+25E6 and U+25AA.\<close>

definition bullet_symbols :: "nat list" where
  "bullet_symbols = [8226, 45, 8227, 9702, 9642]"

definition detect_list_type :: "para \<Rightarrow> bool \<times> list_kind option" where
  "detect_list_type para =
     (let style_name' = py_lower (style_name para);
          first_text = py_strip (para_text para)
      in if first_text \<noteq> [] \<and> hd first_text \<in> set bullet_symbols then (True, Some UL)
         else if py_contains (py ''bullet'') style_name' then (True, Some UL)
         else if py_contains (py ''number'') style_name' then (True, Some OL)
         else (case (case pPr para of None \<Rightarrow> None | Some ppr \<Rightarrow> numPr ppr) of
                 None \<Rightarrow> (False, None)
               | Some numPr' \<Rightarrow>
                   if elem_truth numPr'
                   then (let ilvl' = (case ilvl numPr' of None \<Rightarrow> 0 | Some v \<Rightarrow> v)
                         in if ilvl' = 0 then (True, Some OL) else (True, Some UL))
                   else (False, None)))"

text \<open>Line 90: the runs are rendered from left to right; the first error ends the call.\<close>

fun runs_to_html :: "run list \<Rightarrow> py_error + pystr list" where
  "runs_to_html [] = Inr []"
| "runs_to_html (r # rs) =
     (case run_to_html r of
        Inl e \<Rightarrow> Inl e
      | Inr h \<Rightarrow> (case runs_to_html rs of Inl e \<Rightarrow> Inl e | Inr hs \<Rightarrow> Inr (h # hs)))"

definition color_style :: "para \<Rightarrow> pystr" where
  \<open>color_style para =
     (case runs para of
        [] \<Rightarrow> []
      | first # _ \<Rightarrow>
          (case font_color_rgb first of
             None \<Rightarrow> []
           | Some c \<Rightarrow> py ''style="color:#'' @ str_rgb c @ py '';"''))\<close>

definition para_to_html :: "para \<Rightarrow> py_error + pystr \<times> list_kind option" where
  "para_to_html para =
     (case runs_to_html (runs para) of
        Inl e \<Rightarrow> Inl e
      | Inr hs \<Rightarrow>
          (let html = concat hs
           in if py_strip html = [] then Inr ([], None)
              else (case detect_list_type para of
                      (is_list, list_type) \<Rightarrow>
                        if is_list \<and> list_type \<noteq> None
                        then Inr (py ''<li '' @ color_style para @ py ''>'' @ html @ py ''</li>'',
                                  list_type)
                        else Inr (py ''<p>'' @ html @ py ''</p>'', None))))"

definition wrap_list :: "pystr list \<Rightarrow> list_kind option \<Rightarrow> pystr" where
  "wrap_list items list_type =
     (case list_type of
        None \<Rightarrow> concat items
      | Some t \<Rightarrow>
          if items = [] then concat items
          else py ''<'' @ tag_name t @ py ''>'' @ concat items @ py ''</'' @ tag_name t @ py ''>'')"

section \<open>The section splitter\<close>

datatype faq_kind = Question | Answer

record faq_item =
  item_type :: faq_kind
  item_html :: pystr

record faq_pair =
  question :: pystr
  answer :: pystr

record result =
  head :: pystr
  text_out :: pystr
  faq :: "faq_pair list"

text \<open>
  The local variables of \<^verbatim>\<open>docx_to_html_sections\<close> that the loop over the paragraphs
  updates; \<open>sections0\<close>, \<open>sections1\<close> and \<open>sections2\<close> are the three lists of
  \<^verbatim>\<open>sections\<close>.
\<close>

record splitter =
  current_section :: nat
  sections0 :: "pystr list"
  sections1 :: "pystr list"
  sections2 :: "faq_item list"
  list_buffer :: "pystr list"
  list_type :: "list_kind option"

definition init_splitter :: splitter where
  "init_splitter =
     \<lparr>current_section = 0, sections0 = [], sections1 = [], sections2 = [],
      list_buffer = [], list_type = None\<rparr>"

definition sentinel :: pystr where
  "sentinel = py ''#####''"

definition is_sentinel :: "para \<Rightarrow> bool" where
  "is_sentinel para \<longleftrightarrow> py_strip (para_text para) = sentinel"

definition is_skipped :: "para \<Rightarrow> bool" where
  "is_skipped para \<longleftrightarrow> py_strip (para_text para) = [] \<and> runs para = []"

text \<open>Lines 126 to 132.\<close>

definition on_sentinel :: "splitter \<Rightarrow> splitter" where
  "on_sentinel st =
     (let st1 = (if list_buffer st \<noteq> [] \<and> current_section st = 1
                 then st\<lparr>sections1 := sections1 st @ [wrap_list (list_buffer st) (list_type st)],
                         list_buffer := [], list_type := None\<rparr>
                 else st)
      in st1\<lparr>current_section := current_section st1 + 1\<rparr>)"

text \<open>Lines 139 to 144.\<close>

definition on_list_item :: "splitter \<Rightarrow> pystr \<Rightarrow> list_kind \<Rightarrow> splitter" where
  "on_list_item st html detected_list_type =
     (let st1 = (if list_type st \<noteq> Some detected_list_type \<and> list_buffer st \<noteq> []
                 then st\<lparr>sections1 := sections1 st @ [wrap_list (list_buffer st) (list_type st)],
                         list_buffer := []\<rparr>
                 else st)
      in st1\<lparr>list_type := Some detected_list_type, list_buffer := list_buffer st1 @ [html]\<rparr>)"

text \<open>Lines 145 to 150; the caller has checked \<open>current_section st \<le> 1\<close>.\<close>

definition on_plain :: "splitter \<Rightarrow> pystr \<Rightarrow> splitter" where
  "on_plain st html =
     (let st1 = (if list_buffer st \<noteq> []
                 then st\<lparr>sections1 := sections1 st @ [wrap_list (list_buffer st) (list_type st)],
                         list_buffer := [], list_type := None\<rparr>
                 else st)
      in if current_section st1 = 0 then st1\<lparr>sections0 := sections0 st1 @ [html]\<rparr>
         else st1\<lparr>sections1 := sections1 st1 @ [html]\<rparr>)"

text \<open>Lines 151 to 156.\<close>

definition is_bold :: "para \<Rightarrow> bool" where
  "is_bold para \<longleftrightarrow> list_ex (\<lambda>run. bold run = Some True) (filter (\<lambda>run. py_strip (run_text run) \<noteq> []) (runs para))"

definition on_faq :: "splitter \<Rightarrow> para \<Rightarrow> pystr \<Rightarrow> splitter" where
  "on_faq st para html =
     st\<lparr>sections2 := sections2 st @
           [\<lparr>item_type = (if is_bold para then Question else Answer), item_html = html\<rparr>]\<rparr>"

text \<open>One round of the loop of lines 121 to 156.\<close>

definition step :: "splitter \<Rightarrow> para \<Rightarrow> py_error + splitter" where
  "step st para =
     (if is_skipped para then Inr st
      else if is_sentinel para then Inr (on_sentinel st)
      else (case para_to_html para of
              Inl e \<Rightarrow> Inl e
            | Inr (html, detected_list_type) \<Rightarrow>
                if html = [] then Inr st
                else if current_section st \<le> 1
                then (case detected_list_type of
                        Some t \<Rightarrow> Inr (on_list_item st html t)
                      | None \<Rightarrow> Inr (on_plain st html))
                else if current_section st = 2 then Inr (on_faq st para html)
                else Inr st))"

fun loop :: "splitter \<Rightarrow> para list \<Rightarrow> py_error + splitter" where
  "loop st [] = Inr st"
| "loop st (p # ps) = (case step st p of Inl e \<Rightarrow> Inl e | Inr st' \<Rightarrow> loop st' ps)"

section \<open>Pairing questions and answers\<close>

text \<open>Python's truth test of \<^verbatim>\<open>current_q\<close>: \<^verbatim>\<open>None\<close> and the empty string are false.\<close>

fun pending :: "pystr option \<Rightarrow> pystr option" where
  "pending None = None"
| "pending (Some q) = (if q = [] then None else Some q)"

text \<open>Lines 164 to 172; the state is \<^verbatim>\<open>faq_pairs\<close> and \<^verbatim>\<open>current_q\<close>.\<close>

fun group_faqs_loop :: "faq_pair list \<Rightarrow> pystr option \<Rightarrow> faq_item list \<Rightarrow> faq_pair list \<times> pystr option" where
  "group_faqs_loop faq_pairs current_q [] = (faq_pairs, current_q)"
| "group_faqs_loop faq_pairs current_q (item # items) =
     (case item_type item of
        Question \<Rightarrow>
          group_faqs_loop
            (case pending current_q of
               Some q \<Rightarrow> faq_pairs @ [\<lparr>question = q, answer = []\<rparr>]
             | None \<Rightarrow> faq_pairs)
            (Some (item_html item)) items
      | Answer \<Rightarrow>
          (case pending current_q of
             Some q \<Rightarrow>
               group_faqs_loop (faq_pairs @ [\<lparr>question = q, answer = item_html item\<rparr>]) None items
           | None \<Rightarrow> group_faqs_loop faq_pairs current_q items))"

text \<open>Lines 162 to 174.\<close>

definition group_faqs :: "faq_item list \<Rightarrow> faq_pair list" where
  "group_faqs items =
     (case group_faqs_loop [] None items of
        (faq_pairs, current_q) \<Rightarrow>
          (case pending current_q of
             Some q \<Rightarrow> faq_pairs @ [\<lparr>question = q, answer = []\<rparr>]
           | None \<Rightarrow> faq_pairs))"

section \<open>The conversion\<close>

text \<open>Lines 158 to 180: the flush at the end of the stream, the pairing and the result.\<close>

definition finish :: "splitter \<Rightarrow> result" where
  "finish st =
     (let sections1' = (if list_buffer st \<noteq> [] \<and> current_section st = 1
                        then sections1 st @ [wrap_list (list_buffer st) (list_type st)]
                        else sections1 st)
      in \<lparr>head = py_strip (concat (sections0 st)),
          text_out = py_strip (concat sections1'),
          faq = group_faqs (sections2 st)\<rparr>)"

text \<open>
  \<^verbatim>\<open>docx_to_html_sections\<close> on the paragraphs of the opened document (reading the
  file is python-docx's part).
\<close>

definition docx_to_html_sections :: "para list \<Rightarrow> py_error + result" where
  "docx_to_html_sections paragraphs =
     (case loop init_splitter paragraphs of
        Inl e \<Rightarrow> Inl e
      | Inr st \<Rightarrow> Inr (finish st))"

section \<open>A call after other calls\<close>




section \<open>Example documents\<close>

definition text_run :: "pystr \<Rightarrow> run" where
  "text_run t = \<lparr>run_text = t, bold = None, italic = None, font_size = None, font_name = None,
     font_color_rgb = None, hyperlinks = [], related_parts = Map.empty\<rparr>"

definition link_run :: "pystr \<Rightarrow> pystr \<Rightarrow> (pystr \<rightharpoonup> pystr) \<Rightarrow> run" where
  "link_run t r_id rels = (text_run t)\<lparr>hyperlinks := [Some r_id], related_parts := rels\<rparr>"

definition run_para :: "pystr \<Rightarrow> run \<Rightarrow> para" where
  "run_para t r = \<lparr>style_name = py ''Normal'', para_text = t, runs = [r], pPr = None\<rparr>"

definition text_para :: "pystr \<Rightarrow> para" where
  "text_para t = run_para t (text_run t)"

definition bold_para :: "pystr \<Rightarrow> para" where
  "bold_para t = run_para t ((text_run t)\<lparr>bold := Some True\<rparr>)"

text \<open>The paragraphs of the examples and what they render to.\<close>

definition sentinel_para :: para where
  "sentinel_para = text_para sentinel"

definition bullet_para :: para where
  "bullet_para = text_para (py ''- x'')"

definition plain_para :: para where
  "plain_para = text_para (py ''h'')"

definition question_para :: para where
  "question_para = bold_para (py ''q'')"

definition bullet_li :: pystr where
  \<open>bullet_li = py ''<li ><span style="font-weight:normal;">- x</span></li>''\<close>

definition plain_p :: pystr where
  \<open>plain_p = py ''<p><span style="font-weight:normal;">h</span></p>''\<close>

definition question_p :: pystr where
  \<open>question_p = py ''<p><span style="font-weight:bold;">q</span></p>''\<close>

text \<open>
  A document of four groups: a paragraph and a list item, a paragraph, a question with
  its answer, and a list item after the third sentinel.
\<close>

definition four_sections :: "para list" where
  "four_sections =
     [plain_para, bullet_para, sentinel_para, plain_para, sentinel_para, question_para,
      plain_para, sentinel_para, bullet_para]"

text \<open>
  A run inside a hyperlink whose relationship resolves, and one whose relationship id
  is not a key of the dictionary.
\<close>

definition site_run :: run where
  "site_run = link_run (py ''site'') (py ''rId1'') [py ''rId1'' \<mapsto> py ''https://example.com'']"

definition dangling_run :: run where
  "dangling_run = link_run (py ''site'') (py ''rId9'') Map.empty"

definition quoted_text :: pystr where
  \<open>quoted_text = py ''a&b<c>"d"''\<close>

definition quoted_url :: pystr where
  \<open>quoted_url = py ''https://e.x/?p=1&q="2"''\<close>

definition amp_text :: pystr where
  "amp_text = py ''a & b < c''"

definition styled_para :: "pystr \<Rightarrow> pystr \<Rightarrow> para" where
  "styled_para t s = (text_para t)\<lparr>style_name := s\<rparr>"

definition multiline_text :: pystr where
  "multiline_text = [97, 10, 32, 10, 98]"

section \<open>Definitions that follow the specification\<close>

text \<open>
  The pairing of section 4.6, with its slot for the pending question: a question closes
  a pending question with an empty answer and becomes pending, an answer closes the
  pending question or is dropped, and a question pending at the end is closed with an
  empty answer.
\<close>

fun pair_spec :: "pystr option \<Rightarrow> faq_item list \<Rightarrow> faq_pair list" where
  "pair_spec None [] = []"
| "pair_spec (Some q) [] = [\<lparr>question = q, answer = []\<rparr>]"
| "pair_spec slot (item # items) =
     (case item_type item of
        Question \<Rightarrow>
          (case slot of None \<Rightarrow> [] | Some q \<Rightarrow> [\<lparr>question = q, answer = []\<rparr>]) @
          pair_spec (Some (item_html item)) items
      | Answer \<Rightarrow>
          (case slot of
             None \<Rightarrow> pair_spec None items
           | Some q \<Rightarrow> \<lparr>question = q, answer = item_html item\<rparr> # pair_spec None items))"

definition slot_ok :: "pystr option \<Rightarrow> bool" where
  "slot_ok slot \<longleftrightarrow> slot \<noteq> Some []"


text \<open>What one character becomes when the text of a run is escaped.\<close>

definition escape_char :: "nat \<Rightarrow> pystr" where
  "escape_char c =
     (if c = 38 then py ''&amp;'' else if c = 60 then py ''&lt;''
      else if c = 62 then py ''&gt;'' else [c])"

text \<open>
  A run takes the formatted-span path when it is no raw markup and no hyperlink target
  comes out of lines 16 to 21.
\<close>

definition raw_markup :: "run \<Rightarrow> bool" where
  "raw_markup run \<longleftrightarrow>
     py_startswith (py_strip (run_text run)) (py ''<img'') \<or>
     py_startswith (py_strip (run_text run)) (py ''<iframe'')"

definition unresolved :: "run \<Rightarrow> bool" where
  "unresolved run \<longleftrightarrow> hyperlink_target run = Inr None \<or> hyperlink_target run = Inr (Some [])"

text \<open>
  The list classifier in the words of section 4.2: the first character of the trimmed
  text, the lower-cased style name, and the numbering metadata with its indent level.
  Numbering metadata is present when the paragraph has a numbering-properties element,
  whatever that element holds; its indent level is the value of its \<^verbatim>\<open>w:ilvl\<close> child and
  0 when it has none.
\<close>

definition bullet_glyph_first :: "para \<Rightarrow> bool" where
  "bullet_glyph_first p =
     (case py_strip (para_text p) of
        [] \<Rightarrow> False
      | c # _ \<Rightarrow> c \<in> {8226, 45, 8227, 9702, 9642})"

definition style_contains :: "string \<Rightarrow> para \<Rightarrow> bool" where
  "style_contains w p = py_contains (py w) (py_lower (style_name p))"

definition numbering_metadata :: "para \<Rightarrow> numPr_elem option" where
  "numbering_metadata p = (case pPr p of None \<Rightarrow> None | Some ppr \<Rightarrow> numPr ppr)"

definition indent_level :: "numPr_elem \<Rightarrow> int" where
  "indent_level e = (case ilvl e of None \<Rightarrow> 0 | Some v \<Rightarrow> v)"

text \<open>
  The four checks as claim C7 words them: with numbering metadata present, level 0 is
  ordered and a level greater than 0 is unordered; whatever no check matches is no
  list item.
\<close>

definition classify_claim :: "para \<Rightarrow> bool \<times> list_kind option" where
  "classify_claim p =
     (if bullet_glyph_first p then (True, Some UL)
      else if style_contains ''bullet'' p then (True, Some UL)
      else if style_contains ''number'' p then (True, Some OL)
      else (case numbering_metadata p of
              Some e \<Rightarrow>
                if indent_level e = 0 then (True, Some OL)
                else if 0 < indent_level e then (True, Some UL)
                else (False, None)
            | None \<Rightarrow> (False, None)))"

text \<open>The same checks with the third one amended: every level other than 0 is unordered.\<close>

definition classify_amended :: "para \<Rightarrow> bool \<times> list_kind option" where
  "classify_amended p =
     (if bullet_glyph_first p then (True, Some UL)
      else if style_contains ''bullet'' p then (True, Some UL)
      else if style_contains ''number'' p then (True, Some OL)
      else (case numbering_metadata p of
              Some e \<Rightarrow> if indent_level e = 0 then (True, Some OL) else (True, Some UL)
            | None \<Rightarrow> (False, None)))"

definition numbered_para :: "pystr \<Rightarrow> int option \<Rightarrow> para" where
  "numbered_para t l =
     (text_para t)\<lparr>pPr := Some \<lparr>numPr = Some \<lparr>ilvl = l, numId = Some 1, other_children = 0\<rparr>\<rparr>\<rparr>"

text \<open>A paragraph whose numbering-properties element is there and has no child.\<close>

definition childless_para :: para where
  "childless_para =
     (text_para (py ''h''))
       \<lparr>pPr := Some \<lparr>numPr = Some \<lparr>ilvl = None, numId = None, other_children = 0\<rparr>\<rparr>\<rparr>"



text \<open>
  The head output as the specification describes it: the elements of the paragraphs
  before the first sentinel that are not skipped, render to something and are no list
  items.
\<close>

fun head_elems :: "para list \<Rightarrow> pystr list" where
  "head_elems [] = []"
| "head_elems (p # ps) =
     (if is_skipped p then head_elems ps
      else if is_sentinel p then []
      else (case para_to_html p of
              Inr (h, None) \<Rightarrow> (if h = [] then [] else [h]) @ head_elems ps
            | _ \<Rightarrow> head_elems ps))"


text \<open>A paragraph that the loop gets past without an error.\<close>

definition renders :: "para \<Rightarrow> bool" where
  "renders p \<longleftrightarrow>
     is_skipped p \<or> is_sentinel p \<or> (case para_to_html p of Inl _ \<Rightarrow> False | Inr _ \<Rightarrow> True)"

text \<open>A fragment that begins with \<open><\<close> and ends with \<open>>\<close>.\<close>

definition tagged :: "pystr \<Rightarrow> bool" where
  "tagged s \<longleftrightarrow> s \<noteq> [] \<and> hd s = 60 \<and> last s = 62"



section \<open>Evaluating the example documents\<close>

lemma text_run_sel [simp]:
  "run_text (text_run t) = t" "bold (text_run t) = None" "italic (text_run t) = None"
  "font_size (text_run t) = None" "font_name (text_run t) = None"
  "font_color_rgb (text_run t) = None" "hyperlinks (text_run t) = []"
  "related_parts (text_run t) = Map.empty"
  by (simp_all add: text_run_def)

lemma link_run_sel [simp]:
  "run_text (link_run t i m) = t" "bold (link_run t i m) = None" "italic (link_run t i m) = None"
  "font_size (link_run t i m) = None" "font_name (link_run t i m) = None"
  "font_color_rgb (link_run t i m) = None" "hyperlinks (link_run t i m) = [Some i]"
  "related_parts (link_run t i m) = m"
  by (simp_all add: link_run_def)

lemma run_para_sel [simp]:
  "style_name (run_para t r) = py ''Normal''" "para_text (run_para t r) = t"
  "runs (run_para t r) = [r]" "pPr (run_para t r) = None"
  by (simp_all add: run_para_def)

lemmas strip_eval = py_strip_def py_isspace_def

lemma run_bold_sel [simp]:
  "run_text (r\<lparr>bold := b\<rparr>) = run_text r" "bold (r\<lparr>bold := b\<rparr>) = b"
  by simp_all

lemmas run_eval = run_to_html_def py_startswith_def hyperlink_target_def span_html_def
  style_str_def escape_html_def br_lines_def py_replace_def strip_eval Let_def

lemmas para_eval = para_to_html_def detect_list_type_def bullet_symbols_def py_lower_def
  color_style_def text_para_def bold_para_def

lemma para_to_html_examples:
  "para_to_html bullet_para = Inr (bullet_li, Some UL)"
  "para_to_html plain_para = Inr (plain_p, None)"
  "para_to_html question_para = Inr (question_p, None)"
  by (simp_all add: bullet_para_def plain_para_def question_para_def bullet_li_def plain_p_def
      question_p_def para_eval run_eval)

lemma html_examples_nonempty [simp]: "bullet_li \<noteq> []" "plain_p \<noteq> []" "question_p \<noteq> []"
  by (simp_all add: bullet_li_def plain_p_def question_p_def)

lemma marker_examples:
  "is_sentinel sentinel_para" "\<not> is_skipped sentinel_para"
  "\<not> is_sentinel bullet_para" "\<not> is_skipped bullet_para"
  "\<not> is_sentinel plain_para" "\<not> is_skipped plain_para"
  "\<not> is_sentinel question_para" "\<not> is_skipped question_para"
  by (simp_all add: is_sentinel_def is_skipped_def sentinel_def text_para_def bold_para_def
      sentinel_para_def bullet_para_def plain_para_def question_para_def strip_eval)

lemma is_bold_examples: "is_bold question_para" "\<not> is_bold plain_para"
  by (simp_all add: is_bold_def bold_para_def text_para_def question_para_def plain_para_def
      strip_eval)

lemmas step_eval = step_def marker_examples para_to_html_examples is_bold_examples
  on_sentinel_def on_list_item_def on_plain_def on_faq_def init_splitter_def

lemma strip_nil [simp]: "py_strip [] = []"
  by (simp add: py_strip_def)

section \<open>Pairing questions and answers: proofs\<close>

lemma pending_ok: "slot_ok slot \<Longrightarrow> pending slot = slot"
  by (cases slot) (auto simp: slot_ok_def)

lemma group_faqs_loop_spec:
  "slot_ok slot \<Longrightarrow> \<forall>i\<in>set items. item_html i \<noteq> [] \<Longrightarrow>
   (case group_faqs_loop acc slot items of
      (faq_pairs, current_q) \<Rightarrow>
        (case pending current_q of
           Some q \<Rightarrow> faq_pairs @ [\<lparr>question = q, answer = []\<rparr>]
         | None \<Rightarrow> faq_pairs)) = acc @ pair_spec slot items"
proof (induction items arbitrary: acc slot)
  case Nil
  then show ?case by (cases slot) (auto simp: slot_ok_def)
next
  case (Cons item items)
  have ok: "slot_ok (Some (item_html item))" "slot_ok None"
    using Cons.prems(2) by (simp_all add: slot_ok_def)
  from Cons.prems(2) have rest: "\<forall>i\<in>set items. item_html i \<noteq> []" by simp
  show ?case
  proof (cases "item_type item")
    case Question
    then show ?thesis
      using Cons.IH [OF ok(1) rest] pending_ok [OF Cons.prems(1)]
      by (cases slot) simp_all
  next
    case Answer
    then show ?thesis
      using Cons.IH [OF ok(2) rest] pending_ok [OF Cons.prems(1)]
      by (cases slot) simp_all
  qed
qed

lemma group_faqs_spec:
  "\<forall>i\<in>set items. item_html i \<noteq> [] \<Longrightarrow> group_faqs items = pair_spec None items"
  using group_faqs_loop_spec [of None items "[]"] by (simp add: group_faqs_def slot_ok_def)


section \<open>The splitter, step by step\<close>

lemma on_sentinel_fields [simp]:
  "current_section (on_sentinel st) = current_section st + 1"
  "sections0 (on_sentinel st) = sections0 st"
  "sections2 (on_sentinel st) = sections2 st"
  "sections1 (on_sentinel st) =
     (if list_buffer st \<noteq> [] \<and> current_section st = 1
      then sections1 st @ [wrap_list (list_buffer st) (list_type st)] else sections1 st)"
  "list_buffer (on_sentinel st) =
     (if list_buffer st \<noteq> [] \<and> current_section st = 1 then [] else list_buffer st)"
  "list_type (on_sentinel st) =
     (if list_buffer st \<noteq> [] \<and> current_section st = 1 then None else list_type st)"
  by (simp_all add: on_sentinel_def)

lemma on_list_item_fields [simp]:
  "current_section (on_list_item st h t) = current_section st"
  "sections0 (on_list_item st h t) = sections0 st"
  "sections2 (on_list_item st h t) = sections2 st"
  "sections1 (on_list_item st h t) =
     (if list_type st \<noteq> Some t \<and> list_buffer st \<noteq> []
      then sections1 st @ [wrap_list (list_buffer st) (list_type st)] else sections1 st)"
  "list_buffer (on_list_item st h t) =
     (if list_type st \<noteq> Some t \<and> list_buffer st \<noteq> [] then [h] else list_buffer st @ [h])"
  "list_type (on_list_item st h t) = Some t"
  by (simp_all add: on_list_item_def)

lemma on_plain_fields [simp]:
  "current_section (on_plain st h) = current_section st"
  "sections0 (on_plain st h) =
     (if current_section st = 0 then sections0 st @ [h] else sections0 st)"
  "sections2 (on_plain st h) = sections2 st"
  "sections1 (on_plain st h) =
     (if list_buffer st \<noteq> [] then sections1 st @ [wrap_list (list_buffer st) (list_type st)]
      else sections1 st) @ (if current_section st = 0 then [] else [h])"
  "list_buffer (on_plain st h) = []"
  "list_type (on_plain st h) = (if list_buffer st \<noteq> [] then None else list_type st)"
  by (simp_all add: on_plain_def)

lemma on_faq_fields [simp]:
  "current_section (on_faq st p h) = current_section st"
  "sections0 (on_faq st p h) = sections0 st"
  "sections1 (on_faq st p h) = sections1 st"
  "sections2 (on_faq st p h) =
     sections2 st @ [\<lparr>item_type = (if is_bold p then Question else Answer), item_html = h\<rparr>]"
  "list_buffer (on_faq st p h) = list_buffer st"
  "list_type (on_faq st p h) = list_type st"
  by (simp_all add: on_faq_def)

lemma sentinel_not_skipped: "is_sentinel p \<Longrightarrow> \<not> is_skipped p"
  by (auto simp: is_sentinel_def is_skipped_def sentinel_def)

lemma step_cases [consumes 1, case_names skip sentinel empty item plain faq dead]:
  assumes "step st p = Inr st'"
  obtains
    "is_skipped p" "st' = st"
  | "\<not> is_skipped p" "is_sentinel p" "st' = on_sentinel st"
  | k where "\<not> is_skipped p" "\<not> is_sentinel p" "para_to_html p = Inr ([], k)" "st' = st"
  | h t where "\<not> is_skipped p" "\<not> is_sentinel p" "para_to_html p = Inr (h, Some t)" "h \<noteq> []"
      "current_section st \<le> 1" "st' = on_list_item st h t"
  | h where "\<not> is_skipped p" "\<not> is_sentinel p" "para_to_html p = Inr (h, None)" "h \<noteq> []"
      "current_section st \<le> 1" "st' = on_plain st h"
  | h k where "\<not> is_skipped p" "\<not> is_sentinel p" "para_to_html p = Inr (h, k)" "h \<noteq> []"
      "current_section st = 2" "st' = on_faq st p h"
  | h k where "\<not> is_skipped p" "\<not> is_sentinel p" "para_to_html p = Inr (h, k)" "h \<noteq> []"
      "3 \<le> current_section st" "st' = st"
proof (cases "is_skipped p")
  case True
  then have "step st p = Inr st" by (simp add: step_def)
  with assms have "st' = st" by simp
  with True show ?thesis by (rule that(1))
next
  case ns: False
  show ?thesis
  proof (cases "is_sentinel p")
    case True
    with ns have "step st p = Inr (on_sentinel st)" by (simp add: step_def)
    with assms have "st' = on_sentinel st" by simp
    with ns True show ?thesis by (rule that(2))
  next
    case nt: False
    from ns nt have unf: "step st p =
        (case para_to_html p of
           Inl e \<Rightarrow> Inl e
         | Inr (html, detected_list_type) \<Rightarrow>
             if html = [] then Inr st
             else if current_section st \<le> 1
             then (case detected_list_type of
                     Some t \<Rightarrow> Inr (on_list_item st html t)
                   | None \<Rightarrow> Inr (on_plain st html))
             else if current_section st = 2 then Inr (on_faq st p html)
             else Inr st)"
      by (simp add: step_def)
    from assms unf obtain h k where r: "para_to_html p = Inr (h, k)"
      by (cases "para_to_html p") auto
    show ?thesis
    proof (cases "h = []")
      case True
      with unf r have "step st p = Inr st" by simp
      with assms have "st' = st" by simp
      with ns nt r True show ?thesis using that(3) by blast
    next
      case ne: False
      consider "current_section st \<le> 1" | "current_section st = 2" | "3 \<le> current_section st"
        by linarith
      then show ?thesis
      proof cases
        case 1
        show ?thesis
        proof (cases k)
          case None
          with unf r ne 1 have "step st p = Inr (on_plain st h)" by simp
          with assms have "st' = on_plain st h" by simp
          with ns nt r ne 1 None show ?thesis using that(5) by blast
        next
          case (Some t)
          with unf r ne 1 have "step st p = Inr (on_list_item st h t)" by simp
          with assms have "st' = on_list_item st h t" by simp
          with ns nt r ne 1 Some show ?thesis using that(4) by blast
        qed
      next
        case 2
        with unf r ne have "step st p = Inr (on_faq st p h)" by simp
        with assms have "st' = on_faq st p h" by simp
        with ns nt r ne 2 show ?thesis using that(6) by blast
      next
        case 3
        with unf r ne have "step st p = Inr st" by simp
        with assms have "st' = st" by simp
        with ns nt r ne 3 show ?thesis using that(7) by blast
      qed
    qed
  qed
qed

lemma loop_append:
  "loop st (xs @ ys) = (case loop st xs of Inl e \<Rightarrow> Inl e | Inr st' \<Rightarrow> loop st' ys)"
  by (induction xs arbitrary: st) (auto split: sum.splits)

lemma loop_Cons_Inr:
  "loop st (p # ps) = Inr st' \<longleftrightarrow> (\<exists>st1. step st p = Inr st1 \<and> loop st1 ps = Inr st')"
  by (auto split: sum.splits)

lemma loop_append_Inr:
  "loop st (xs @ ys) = Inr st' \<longleftrightarrow> (\<exists>st1. loop st xs = Inr st1 \<and> loop st1 ys = Inr st')"
  by (auto simp: loop_append split: sum.splits)

text \<open>A property of the state that every round keeps holds after the loop.\<close>

lemma loop_invariant:
  assumes "loop st ps = Inr st'" and "P st"
    and "\<And>s p s'. P s \<Longrightarrow> step s p = Inr s' \<Longrightarrow> P s'"
  shows "P st'"
  using assms(1,2)
proof (induction ps arbitrary: st)
  case Nil
  then show ?case by simp
next
  case (Cons p ps)
  from Cons.prems(1) obtain st1 where s: "step st p = Inr st1" and l: "loop st1 ps = Inr st'"
    by (auto split: sum.splits)
  from assms(3) [OF Cons.prems(2) s] Cons.IH [OF l] show ?case by blast
qed

lemma step_sections2_nonempty:
  assumes "step st p = Inr st'" and "\<forall>i\<in>set (sections2 st). item_html i \<noteq> []"
  shows "\<forall>i\<in>set (sections2 st'). item_html i \<noteq> []"
  using assms by (cases rule: step_cases) auto

lemma loop_sections2_nonempty:
  assumes "loop init_splitter ps = Inr st"
  shows "\<forall>i\<in>set (sections2 st). item_html i \<noteq> []"
  using assms
  by (rule loop_invariant) (simp_all add: init_splitter_def step_sections2_nonempty)

section \<open>Rendering runs: proofs\<close>

lemma py_replace_append:
  "py_replace a n (xs @ ys) = py_replace a n xs @ py_replace a n ys"
  by (simp add: py_replace_def)

lemma py_replace_Cons:
  "py_replace a n (c # cs) = (if c = a then n else [c]) @ py_replace a n cs"
  by (simp add: py_replace_def)

lemma py_replace_Nil [simp]: "py_replace a n [] = []"
  by (simp add: py_replace_def)

lemma escape_html_Cons: "escape_html (c # t) = escape_char c @ escape_html t"
  by (simp add: escape_html_def escape_char_def py_replace_Cons py_replace_append)

lemma escape_html_chars: "escape_html t = concat (map escape_char t)"
  by (induction t) (simp_all add: escape_html_Cons, simp add: escape_html_def)

lemma br_lines_spec:
  "br_lines e =
     (if 10 \<in> set e
      then py_join (py ''<br>'') (filter (\<lambda>l. l \<noteq> []) (map py_strip (py_split 10 e)))
      else e)"
  by (simp add: br_lines_def filter_map o_def)

lemma run_to_html_span:
  assumes "\<not> raw_markup run" and "unresolved run"
  shows "run_to_html run = Inr (span_html run)"
  using assms by (auto simp: run_to_html_def raw_markup_def unresolved_def Let_def)

lemma hyperlink_target_resolved:
  assumes "hyperlinks run = Some r_id # others" and "r_id \<noteq> []"
    and "related_parts run r_id = Some url"
  shows "hyperlink_target run = Inr (Some url)"
  using assms by (simp add: hyperlink_target_def)

lemma hyperlink_target_dangling:
  assumes "hyperlinks run = Some r_id # others" and "r_id \<noteq> []"
    and "related_parts run r_id = None"
  shows "hyperlink_target run = Inl (KeyError r_id)"
  using assms by (simp add: hyperlink_target_def)

lemma run_to_html_anchor:
  assumes "hyperlink_target run = Inr (Some url)" and "url \<noteq> []"
  shows \<open>run_to_html run =
     Inr (if raw_markup run then py_strip (run_text run)
          else py ''<a href="'' @ url @ py ''" target="_blank">'' @ py_strip (run_text run) @
               py ''</a>'')\<close>
  using assms by (simp add: run_to_html_def raw_markup_def Let_def)

lemma multiline_example:
  \<open>run_to_html (text_run multiline_text) =
     Inr (py ''<span style="font-weight:normal;">a<br>b</span>'')\<close>
  by (simp add: multiline_text_def run_eval)

lemma quoted_examples:
  \<open>run_to_html (link_run quoted_text (py ''rId1'') [py ''rId1'' \<mapsto> quoted_url]) =
     Inr (py ''<a href="https://e.x/?p=1&q="2"" target="_blank">a&b<c>"d"</a>'')\<close>
  \<open>run_to_html (text_run quoted_text) =
     Inr (py ''<span style="font-weight:normal;">a&amp;b&lt;c&gt;"d"</span>'')\<close>
  by (simp_all add: quoted_text_def quoted_url_def run_eval)

lemma site_example:
  \<open>run_to_html site_run = Inr (py ''<a href="https://example.com" target="_blank">site</a>'')\<close>
  by (simp add: site_run_def run_eval)

lemma dangling_example: "run_to_html dangling_run = Inl (KeyError (py ''rId9''))"
  by (simp add: dangling_run_def run_eval)

section \<open>Classifying paragraphs: proofs\<close>

lemma py_startswith_prefix: "py_startswith s p \<longleftrightarrow> prefix p s"
  by (metis py_startswith_def prefix_def append_eq_conv_conj append_take_drop_id)

lemma py_contains_sublist: "py_contains sub s \<longleftrightarrow> sublist sub s"
  by (induction s) (simp_all add: py_startswith_prefix sublist_Cons_right)

text \<open>
  The classifier of the code, check by check: its third check is the truth test of the
  numbering-properties element (line 80), then the level (lines 81 to 85).
\<close>

lemma detect_list_type_checks:
  "detect_list_type p =
     (if bullet_glyph_first p then (True, Some UL)
      else if style_contains ''bullet'' p then (True, Some UL)
      else if style_contains ''number'' p then (True, Some OL)
      else (case numbering_metadata p of
              Some e \<Rightarrow>
                if elem_truth e
                then (if indent_level e = 0 then (True, Some OL) else (True, Some UL))
                else (False, None)
            | None \<Rightarrow> (False, None)))"
proof (cases "py_strip (para_text p)")
  case Nil
  then show ?thesis
    by (simp add: detect_list_type_def bullet_glyph_first_def style_contains_def
        numbering_metadata_def indent_level_def Let_def split: option.splits)
next
  case (Cons c cs)
  then show ?thesis
    by (simp add: detect_list_type_def bullet_glyph_first_def style_contains_def
        numbering_metadata_def indent_level_def bullet_symbols_def Let_def split: option.splits)
qed

lemma detect_list_type_amended:
  assumes "\<forall>e. numbering_metadata p = Some e \<longrightarrow> elem_truth e"
  shows "detect_list_type p = classify_amended p"
  using assms
  by (simp add: detect_list_type_checks classify_amended_def split: option.splits)

lemmas classify_eval = bullet_glyph_first_def style_contains_def numbering_metadata_def
  indent_level_def elem_truth_def elem_len_def bullet_para_def plain_para_def styled_para_def
  numbered_para_def childless_para_def text_para_def py_lower_def py_startswith_def strip_eval

lemma detect_negative_level: "detect_list_type (numbered_para (py ''h'') (Some (- 1))) = (True, Some UL)"
  by (simp add: detect_list_type_checks classify_eval)

lemma detect_childless: "detect_list_type childless_para = (False, None)"
  by (simp add: detect_list_type_checks classify_eval)

section \<open>A call after other calls: proofs\<close>



section \<open>Fragments\<close>

lemma py_strip_tagged: "tagged s \<Longrightarrow> py_strip s = s"
proof -
  assume t: "tagged s"
  then have a: "dropWhile py_isspace s = s"
    by (cases s) (auto simp: tagged_def py_isspace_def)
  from t have "rev s \<noteq> []" "hd (rev s) = 62" by (auto simp: tagged_def hd_rev)
  then have "dropWhile py_isspace (rev s) = rev s"
    by (cases "rev s") (auto simp: py_isspace_def)
  with a show ?thesis by (simp add: py_strip_def)
qed

lemma tagged_append: "tagged a \<Longrightarrow> tagged b \<Longrightarrow> tagged (a @ b)"
  by (auto simp: tagged_def)

lemma tagged_concat: "fs \<noteq> [] \<Longrightarrow> list_all tagged fs \<Longrightarrow> tagged (concat fs)"
proof (induction fs)
  case Nil
  then show ?case by simp
next
  case (Cons f fs)
  show ?case
  proof (cases "fs = []")
    case True
    with Cons.prems show ?thesis by simp
  next
    case False
    with Cons show ?thesis by (simp add: tagged_append)
  qed
qed


lemma tagged_wrap_list:
  assumes "items \<noteq> []" and "list_all tagged items"
  shows "tagged (wrap_list items k)"
proof (cases k)
  case None
  with assms show ?thesis by (simp add: wrap_list_def tagged_concat)
next
  case (Some t)
  have "tagged (py ''<'' @ tag_name t @ py ''>'' @ concat items @ py ''</'' @ tag_name t @ py ''>'')"
    by (cases t) (simp_all add: tagged_def)
  with Some assms show ?thesis by (simp add: wrap_list_def)
qed


section \<open>What a paragraph renders to\<close>

lemma para_to_html_shape:
  assumes "para_to_html p = Inr (h, k)"
  shows "(h = [] \<and> k = None) \<or>
         (\<exists>inner. k = None \<and> h = py ''<p>'' @ inner @ py ''</p>'') \<or>
         (\<exists>inner t. k = Some t \<and> h = py ''<li '' @ color_style p @ py ''>'' @ inner @ py ''</li>'')"
proof -
  from assms obtain hs where hs: "runs_to_html (runs p) = Inr hs"
    by (cases "runs_to_html (runs p)") (auto simp: para_to_html_def)
  show ?thesis
  proof (cases "py_strip (concat hs) = []")
    case True
    with assms hs show ?thesis by (simp add: para_to_html_def)
  next
    case False
    obtain b k' where d: "detect_list_type p = (b, k')" by (cases "detect_list_type p")
    show ?thesis
    proof (cases "b \<and> k' \<noteq> None")
      case True
      with assms hs False d show ?thesis by (auto simp: para_to_html_def)
    next
      case nl: False
      with assms hs False d have "k = None \<and> h = py ''<p>'' @ concat hs @ py ''</p>''"
        by (auto simp: para_to_html_def)
      then show ?thesis by blast
    qed
  qed
qed

lemma para_to_html_plain:
  assumes "para_to_html p = Inr (h, None)" and "h \<noteq> []"
  shows "\<exists>inner. h = py ''<p>'' @ inner @ py ''</p>''"
  using para_to_html_shape [OF assms(1)] assms(2) by auto


section \<open>What the loop leaves alone\<close>

lemma step_section_mono: "step st p = Inr st' \<Longrightarrow> current_section st \<le> current_section st'"
  by (cases rule: step_cases) auto

lemma step_no_sentinel:
  "step st p = Inr st' \<Longrightarrow> \<not> is_sentinel p \<Longrightarrow> current_section st' = current_section st"
  by (cases rule: step_cases) auto

lemma loop_no_sentinel:
  "loop st ps = Inr st' \<Longrightarrow> \<forall>p\<in>set ps. \<not> is_sentinel p \<Longrightarrow>
   current_section st' = current_section st"
proof (induction ps arbitrary: st)
  case Nil
  then show ?case by simp
next
  case (Cons p ps)
  from Cons.prems(1) obtain st1 where s: "step st p = Inr st1" and l: "loop st1 ps = Inr st'"
    by (auto split: sum.splits)
  from Cons.IH [OF l] Cons.prems(2) step_no_sentinel [OF s] show ?case by simp
qed

lemma step_sections0_frozen:
  "step st p = Inr st' \<Longrightarrow> 1 \<le> current_section st \<Longrightarrow> sections0 st' = sections0 st"
  by (cases rule: step_cases) auto

lemma loop_sections0_frozen:
  assumes "loop st ps = Inr st'" and "1 \<le> current_section st"
  shows "sections0 st' = sections0 st"
proof -
  have "1 \<le> current_section st' \<and> sections0 st' = sections0 st"
    using assms(1)
  proof (rule loop_invariant)
    show "1 \<le> current_section st \<and> sections0 st = sections0 st" using assms(2) by simp
  next
    fix s p s'
    assume "1 \<le> current_section s \<and> sections0 s = sections0 st" and "step s p = Inr s'"
    then show "1 \<le> current_section s' \<and> sections0 s' = sections0 st"
      using step_section_mono [of s p s'] step_sections0_frozen [of s p s'] by simp
  qed
  then show ?thesis by simp
qed

lemma step_text_frozen:
  "step st p = Inr st' \<Longrightarrow> 2 \<le> current_section st \<Longrightarrow>
   sections1 st' = sections1 st \<and> list_buffer st' = list_buffer st \<and> list_type st' = list_type st"
  by (cases rule: step_cases) auto

lemma loop_text_frozen:
  assumes "loop st ps = Inr st'" and "2 \<le> current_section st"
  shows "sections1 st' = sections1 st \<and> list_buffer st' = list_buffer st \<and>
         list_type st' = list_type st \<and> 2 \<le> current_section st'"
  using assms(1)
proof (rule loop_invariant)
  show "sections1 st = sections1 st \<and> list_buffer st = list_buffer st \<and>
        list_type st = list_type st \<and> 2 \<le> current_section st" using assms(2) by simp
next
  fix s p s'
  assume "sections1 s = sections1 st \<and> list_buffer s = list_buffer st \<and>
          list_type s = list_type st \<and> 2 \<le> current_section s" and "step s p = Inr s'"
  then show "sections1 s' = sections1 st \<and> list_buffer s' = list_buffer st \<and>
             list_type s' = list_type st \<and> 2 \<le> current_section s'"
    using step_section_mono [of s p s'] step_text_frozen [of s p s'] by simp
qed

lemma step_faq_frozen:
  "step st p = Inr st' \<Longrightarrow> 3 \<le> current_section st \<Longrightarrow> sections2 st' = sections2 st"
  by (cases rule: step_cases) auto

lemma loop_faq_frozen:
  assumes "loop st ps = Inr st'" and "3 \<le> current_section st"
  shows "sections2 st' = sections2 st \<and> 3 \<le> current_section st'"
  using assms(1)
proof (rule loop_invariant)
  show "sections2 st = sections2 st \<and> 3 \<le> current_section st" using assms(2) by simp
next
  fix s p s'
  assume "sections2 s = sections2 st \<and> 3 \<le> current_section s" and "step s p = Inr s'"
  then show "sections2 s' = sections2 st \<and> 3 \<le> current_section s'"
    using step_section_mono [of s p s'] step_faq_frozen [of s p s'] by simp
qed

lemma step_faq_untouched:
  "step st p = Inr st' \<Longrightarrow> current_section st' \<le> 1 \<Longrightarrow> sections2 st' = sections2 st"
  by (cases rule: step_cases) auto

text \<open>The result depends on the section counter only through the test for state 1.\<close>

lemma finish_cong:
  assumes "sections0 a = sections0 b" and "sections1 a = sections1 b"
    and "sections2 a = sections2 b" and "list_buffer a = list_buffer b"
    and "list_type a = list_type b"
    and "current_section a = 1 \<longleftrightarrow> current_section b = 1"
  shows "finish a = finish b"
  using assms by (simp add: finish_def)

section \<open>Whether the loop ends with an error does not depend on the state\<close>

lemma step_total: "(\<exists>st'. step st p = Inr st') \<longleftrightarrow> renders p"
  by (auto simp: step_def renders_def split: sum.splits option.splits)

lemma loop_total: "(\<exists>st'. loop st ps = Inr st') \<longleftrightarrow> list_all renders ps"
proof (induction ps arbitrary: st)
  case Nil
  then show ?case by simp
next
  case (Cons p ps)
  show ?case
  proof (cases "step st p")
    case (Inl e)
    then have "\<not> renders p" using step_total [of st p] by auto
    with Inl show ?thesis by simp
  next
    case (Inr st1)
    then have "renders p" using step_total [of st p] by auto
    with Inr Cons.IH [of st1] show ?thesis by simp
  qed
qed

section \<open>The head output\<close>

lemma loop_head_elems:
  "loop st ps = Inr st' \<Longrightarrow>
   sections0 st' = sections0 st @ (if current_section st = 0 then head_elems ps else [])"
proof (induction ps arbitrary: st)
  case Nil
  then show ?case by simp
next
  case (Cons p ps)
  from Cons.prems obtain st1 where s: "step st p = Inr st1" and l: "loop st1 ps = Inr st'"
    by (auto split: sum.splits)
  note ih = Cons.IH [OF l]
  from s show ?case
  proof (cases rule: step_cases)
    case skip
    with ih show ?thesis by simp
  next
    case sentinel
    with ih show ?thesis by simp
  next
    case (empty k)
    with ih para_to_html_shape [of p "[]" k] show ?thesis by auto
  next
    case (item h t)
    with ih show ?thesis by simp
  next
    case (plain h)
    with ih show ?thesis by simp
  next
    case (faq h k)
    with ih show ?thesis by simp
  next
    case (dead h k)
    with ih show ?thesis by simp
  qed
qed

lemma head_elems_plain: "h \<in> set (head_elems ps) \<Longrightarrow> \<exists>inner. h = py ''<p>'' @ inner @ py ''</p>''"
proof (induction ps)
  case Nil
  then show ?case by simp
next
  case (Cons p ps)
  show ?case
  proof (cases "h \<in> set (head_elems ps)")
    case True
    then show ?thesis by (rule Cons.IH)
  next
    case False
    with Cons.prems have "para_to_html p = Inr (h, None) \<and> h \<noteq> []"
      by (auto split: if_splits sum.splits option.splits prod.splits)
    then show ?thesis using para_to_html_plain by blast
  qed
qed

section \<open>The FAQ items\<close>

lemma step_faq_sim:
  assumes "step a p = Inr a'" and "current_section b = current_section a"
    and "2 \<le> current_section a" and "sections2 b = sections2 a"
  shows "\<exists>b'. step b p = Inr b' \<and> current_section b' = current_section a' \<and>
              sections2 b' = sections2 a'"
  using assms by (cases rule: step_cases) (auto simp: step_def)

lemma loop_faq_sim:
  "loop a ps = Inr a' \<Longrightarrow> current_section b = current_section a \<Longrightarrow>
   2 \<le> current_section a \<Longrightarrow> sections2 b = sections2 a \<Longrightarrow>
   \<exists>b'. loop b ps = Inr b' \<and> current_section b' = current_section a' \<and>
        sections2 b' = sections2 a'"
proof (induction ps arbitrary: a b)
  case Nil
  then show ?case by simp
next
  case (Cons p ps)
  from Cons.prems(1) obtain a1 where s: "step a p = Inr a1" and l: "loop a1 ps = Inr a'"
    by (auto split: sum.splits)
  from step_faq_sim [OF s Cons.prems(2,3,4)] obtain b1 where
    b1: "step b p = Inr b1" "current_section b1 = current_section a1" "sections2 b1 = sections2 a1"
    by blast
  from step_section_mono [OF s] Cons.prems(3) have "2 \<le> current_section a1" by simp
  from Cons.IH [OF l b1(2) this b1(3)] b1(1) show ?case by simp
qed

section \<open>Past the FAQ state\<close>

lemma loop_dead:
  assumes "loop st ps = Inr st'" and "3 \<le> current_section st"
  shows "finish st' = finish st" and "3 \<le> current_section st'"
proof -
  from loop_faq_frozen [OF assms] have f: "sections2 st' = sections2 st" "3 \<le> current_section st'"
    by simp_all
  from assms(2) have "1 \<le> current_section st" "2 \<le> current_section st" by simp_all
  from loop_sections0_frozen [OF assms(1) this(1)] loop_text_frozen [OF assms(1) this(2)] f assms(2)
  show "finish st' = finish st" by (intro finish_cong) simp_all
  from f show "3 \<le> current_section st'" by simp
qed

lemma step_sentinel: "is_sentinel s \<Longrightarrow> step st s = Inr (on_sentinel st)"
  by (simp add: step_def sentinel_not_skipped)

lemma loop_section_mono: "loop st ps = Inr st' \<Longrightarrow> current_section st \<le> current_section st'"
proof (induction ps arbitrary: st)
  case Nil
  then show ?case by simp
next
  case (Cons p ps)
  from Cons.prems obtain st1 where s: "step st p = Inr st1" and l: "loop st1 ps = Inr st'"
    by (auto split: sum.splits)
  from step_section_mono [OF s] Cons.IH [OF l] show ?case by simp
qed

lemma loop_faq_untouched:
  "loop st ps = Inr st' \<Longrightarrow> current_section st' \<le> 1 \<Longrightarrow> sections2 st' = sections2 st"
proof (induction ps arbitrary: st)
  case Nil
  then show ?case by simp
next
  case (Cons p ps)
  from Cons.prems(1) obtain st1 where s: "step st p = Inr st1" and l: "loop st1 ps = Inr st'"
    by (auto split: sum.splits)
  from loop_section_mono [OF l] Cons.prems(2) have "current_section st1 \<le> 1" by simp
  from step_faq_untouched [OF s this] Cons.IH [OF l Cons.prems(2)] show ?case by simp
qed

lemma sentinel_in_faq:
  assumes pre: "loop init_splitter pre = Inr st" and cs: "current_section st = 2"
    and s: "is_sentinel s" and all: "loop init_splitter (pre @ s # post) = Inr st'"
  shows "3 \<le> current_section st' \<and> sections0 st' = sections0 st \<and>
         sections1 st' = sections1 st \<and> sections2 st' = sections2 st \<and>
         docx_to_html_sections (pre @ s # post) = docx_to_html_sections pre"
proof -
  from all pre step_sentinel [OF s, of st] have l: "loop (on_sentinel st) post = Inr st'"
    by (simp add: loop_append)
  from cs have three: "3 \<le> current_section (on_sentinel st)" by simp
  from loop_dead [OF l three] have d: "finish st' = finish (on_sentinel st)" "3 \<le> current_section st'"
    by simp_all
  from cs have e: "finish (on_sentinel st) = finish st" by (intro finish_cong) simp_all
  from cs have "1 \<le> current_section (on_sentinel st)" "2 \<le> current_section (on_sentinel st)"
    by simp_all
  from loop_sections0_frozen [OF l this(1)] loop_text_frozen [OF l this(2)]
    loop_faq_frozen [OF l three] cs
  have "sections0 st' = sections0 st" "sections1 st' = sections1 st" "sections2 st' = sections2 st"
    by simp_all
  with d e all pre show ?thesis by (simp add: docx_to_html_sections_def)
qed

section \<open>Three sentinels\<close>

lemma three_sentinels:
  assumes A: "\<forall>p\<in>set A. \<not> is_sentinel p" and B: "\<forall>p\<in>set B. \<not> is_sentinel p"
    and C: "\<forall>p\<in>set C. \<not> is_sentinel p"
    and s: "is_sentinel s1" "is_sentinel s2" "is_sentinel s3"
    and r: "docx_to_html_sections (A @ s1 # B @ s2 # C @ s3 # D) = Inr r"
  shows "\<exists>rA rB rC. docx_to_html_sections A = Inr rA \<and>
           docx_to_html_sections (A @ s1 # B) = Inr rB \<and>
           docx_to_html_sections (s1 # s2 # C) = Inr rC \<and>
           head r = head rA \<and> text_out r = text_out rB \<and> faq r = faq rC \<and>
           docx_to_html_sections (A @ s1 # B @ s2 # C @ [s3]) = Inr r"
proof -
  from r obtain stF where full: "loop init_splitter (A @ s1 # B @ s2 # C @ s3 # D) = Inr stF"
    and rF: "r = finish stF"
    by (auto simp: docx_to_html_sections_def split: sum.splits)
  from full obtain a where a: "loop init_splitter A = Inr a"
    and l1: "loop a (s1 # B @ s2 # C @ s3 # D) = Inr stF"
    by (auto simp: loop_append_Inr)
  let ?a1 = "on_sentinel a"
  from l1 step_sentinel [OF s(1), of a] have "loop ?a1 (B @ s2 # C @ s3 # D) = Inr stF"
    by simp
  then obtain b where b: "loop ?a1 B = Inr b" and l2: "loop b (s2 # C @ s3 # D) = Inr stF"
    by (auto simp: loop_append_Inr)
  let ?b1 = "on_sentinel b"
  from l2 step_sentinel [OF s(2), of b] have "loop ?b1 (C @ s3 # D) = Inr stF" by simp
  then obtain c where c: "loop ?b1 C = Inr c" and l3: "loop c (s3 # D) = Inr stF"
    by (auto simp: loop_append_Inr)
  let ?c1 = "on_sentinel c"
  from l3 step_sentinel [OF s(3), of c] have d: "loop ?c1 D = Inr stF" by simp
  have csa: "current_section a = 0"
    using loop_no_sentinel [OF a A] by (simp add: init_splitter_def)
  have csb: "current_section b = 1" using loop_no_sentinel [OF b B] csa by simp
  have csc: "current_section c = 2" using loop_no_sentinel [OF c C] csb by simp
  have dead: "finish stF = finish ?c1" using loop_dead(1) [OF d] csc by simp
  have "loop ?a1 (B @ s2 # C @ s3 # D) = Inr stF" by fact
  from loop_sections0_frozen [OF this] csa have s0: "sections0 stF = sections0 a" by simp
  have hd_eq: "head (finish stF) = head (finish a)" using s0 by (simp add: finish_def)
  have "loop ?b1 (C @ s3 # D) = Inr stF" by fact
  from loop_text_frozen [OF this] csb
  have t: "sections1 stF = sections1 ?b1" "list_buffer stF = list_buffer ?b1"
    "2 \<le> current_section stF" by simp_all
  have tx_eq: "text_out (finish stF) = text_out (finish b)"
    using t csb by (simp add: finish_def)
  have AB: "loop init_splitter (A @ s1 # B) = Inr b"
    using a b step_sentinel [OF s(1), of a] by (simp add: loop_append)
  have s2b: "sections2 ?b1 = []"
  proof -
    have "sections2 a = []"
      using loop_faq_untouched [OF a] csa by (simp add: init_splitter_def)
    moreover have "sections2 b = sections2 ?a1" using loop_faq_untouched [OF b] csb by simp
    ultimately show ?thesis by simp
  qed
  let ?i2 = "on_sentinel (on_sentinel init_splitter)"
  have i2: "current_section ?i2 = current_section ?b1" "sections2 ?i2 = sections2 ?b1"
    using csb s2b by (simp_all add: init_splitter_def)
  have "2 \<le> current_section ?b1" using csb by simp
  from loop_faq_sim [OF c i2(1) this i2(2)] obtain c' where
    c': "loop ?i2 C = Inr c'" "sections2 c' = sections2 c" by blast
  have sC: "loop init_splitter (s1 # s2 # C) = Inr c'"
    using c'(1) step_sentinel [OF s(1), of init_splitter]
      step_sentinel [OF s(2), of "on_sentinel init_splitter"] by simp
  have "sections2 stF = sections2 c"
    using loop_faq_frozen [OF d] csc by simp
  then have fq_eq: "faq (finish stF) = faq (finish c')" using c'(2) by (simp add: finish_def)
  have cut: "loop init_splitter (A @ s1 # B @ s2 # C @ [s3]) = Inr ?c1"
    using a b c step_sentinel [OF s(1), of a] step_sentinel [OF s(2), of b]
      step_sentinel [OF s(3), of c] by (simp add: loop_append)
  show ?thesis
    using a AB sC cut hd_eq tx_eq fq_eq dead rF by (simp add: docx_to_html_sections_def)
qed

section \<open>No buffered list item is lost on the way to the text output\<close>








section \<open>The example documents, converted\<close>

lemma example_tagged [simp]: "tagged bullet_li" "tagged plain_p" "tagged question_p"
  by (simp_all add: tagged_def bullet_li_def plain_p_def question_p_def)

lemma bullet_list_tagged [simp]: "tagged (wrap_list [bullet_li] (Some UL))"
  by (simp add: tagged_wrap_list)

lemma py_strip_append_tagged: "tagged a \<Longrightarrow> tagged b \<Longrightarrow> py_strip (a @ b) = a @ b"
  by (simp add: py_strip_tagged tagged_append)

lemma bullet_list_unfold: "wrap_list [bullet_li] (Some UL) = py ''<ul>'' @ bullet_li @ py ''</ul>''"
  by (simp add: wrap_list_def)

lemmas loop_eval = step_def marker_examples para_to_html_examples is_bold_examples
  on_sentinel_def on_list_item_def on_plain_def on_faq_def

lemmas finish_eval = finish_def group_faqs_def py_strip_tagged py_strip_append_tagged


lemma loop_bullet_sentinel:
  "loop init_splitter [bullet_para, sentinel_para] =
     Inr \<lparr>current_section = 1, sections0 = [], sections1 = [], sections2 = [],
          list_buffer = [bullet_li], list_type = Some UL\<rparr>"
  by (simp add: init_splitter_def loop_eval)


lemma docx_bullet_sentinel:
  "docx_to_html_sections [bullet_para, sentinel_para] =
     Inr \<lparr>head = [], text_out = py ''<ul>'' @ bullet_li @ py ''</ul>'', faq = []\<rparr>"
proof -
  have "docx_to_html_sections [bullet_para, sentinel_para] =
      Inr \<lparr>head = [], text_out = wrap_list [bullet_li] (Some UL), faq = []\<rparr>"
    unfolding docx_to_html_sections_def loop_bullet_sentinel by (simp add: finish_eval)
  then show ?thesis by (simp add: wrap_list_def)
qed

lemma loop_faq_doc:
  "loop init_splitter [sentinel_para, sentinel_para, question_para] =
     Inr \<lparr>current_section = 2, sections0 = [], sections1 = [],
          sections2 = [\<lparr>item_type = Question, item_html = question_p\<rparr>],
          list_buffer = [], list_type = None\<rparr>"
  by (simp add: init_splitter_def loop_eval)

lemma docx_faq_doc:
  "docx_to_html_sections [sentinel_para, sentinel_para, question_para] =
     Inr \<lparr>head = [], text_out = [], faq = [\<lparr>question = question_p, answer = []\<rparr>]\<rparr>"
  unfolding docx_to_html_sections_def loop_faq_doc by (simp add: finish_eval)

lemma loop_extra_sentinel:
  "loop init_splitter [sentinel_para, sentinel_para, question_para, sentinel_para, question_para] =
     Inr \<lparr>current_section = 3, sections0 = [], sections1 = [],
          sections2 = [\<lparr>item_type = Question, item_html = question_p\<rparr>],
          list_buffer = [], list_type = None\<rparr>"
  by (simp add: init_splitter_def loop_eval)

lemma docx_late_question:
  "docx_to_html_sections [sentinel_para, sentinel_para, sentinel_para, question_para] =
     Inr \<lparr>head = [], text_out = [], faq = []\<rparr>"
  by (simp add: docx_to_html_sections_def init_splitter_def loop_eval finish_eval)

lemma docx_three_sentinels:
  "docx_to_html_sections [sentinel_para, sentinel_para, sentinel_para] =
     Inr \<lparr>head = [], text_out = [], faq = []\<rparr>"
  by (simp add: docx_to_html_sections_def init_splitter_def loop_eval finish_eval)

lemma docx_bullet_three_sentinels:
  "docx_to_html_sections [bullet_para, sentinel_para, sentinel_para, sentinel_para] =
     Inr \<lparr>head = [], text_out = py ''<ul>'' @ bullet_li @ py ''</ul>'', faq = []\<rparr>"
proof -
  have "docx_to_html_sections [bullet_para, sentinel_para, sentinel_para, sentinel_para] =
      Inr \<lparr>head = [], text_out = wrap_list [bullet_li] (Some UL), faq = []\<rparr>"
    by (simp add: docx_to_html_sections_def init_splitter_def loop_eval finish_eval)
  then show ?thesis by (simp add: wrap_list_def)
qed

lemma docx_four_sections:
  "docx_to_html_sections four_sections =
     Inr \<lparr>head = plain_p,
          text_out = py ''<ul>'' @ bullet_li @ py ''</ul>'' @ plain_p,
          faq = [\<lparr>question = question_p, answer = plain_p\<rparr>]\<rparr>"
proof -
  have "docx_to_html_sections four_sections =
      Inr \<lparr>head = plain_p, text_out = wrap_list [bullet_li] (Some UL) @ plain_p,
           faq = [\<lparr>question = question_p, answer = plain_p\<rparr>]\<rparr>"
    by (simp add: four_sections_def docx_to_html_sections_def init_splitter_def loop_eval
        finish_eval)
  then show ?thesis by (simp add: wrap_list_def)
qed

section \<open>Claims about the pairing of questions and answers\<close>

text \<open>
  C4. The pairing loop of lines 162 to 174 is the pairer of the specification: for the
  tagged items question \<open>Q1\<close>, answer \<open>A1\<close>, question \<open>Q2\<close>, question \<open>Q3\<close>, answer
  \<open>A3\<close> it returns the pairs \<open>(Q1, A1)\<close>, \<open>(Q2, "")\<close>, \<open>(Q3, A3)\<close>, and on every item
  sequence it agrees with \<open>pair_spec\<close>, where an answer without a pending question gives
  no pair, a question met while another is pending closes that one with an empty
  answer, and a question pending at the end is closed with an empty answer, in the
  order of the items. The loop tests the pending question by its truth value, so the
  items carry non-empty markup; every item the splitter hands over does.
\<close>

theorem faq_pairer_semantics:
  "(Q1 \<noteq> [] \<and> Q2 \<noteq> [] \<and> Q3 \<noteq> [] \<longrightarrow>
      group_faqs
        [\<lparr>item_type = Question, item_html = Q1\<rparr>, \<lparr>item_type = Answer, item_html = A1\<rparr>,
         \<lparr>item_type = Question, item_html = Q2\<rparr>, \<lparr>item_type = Question, item_html = Q3\<rparr>,
         \<lparr>item_type = Answer, item_html = A3\<rparr>] =
      [\<lparr>question = Q1, answer = A1\<rparr>, \<lparr>question = Q2, answer = []\<rparr>,
       \<lparr>question = Q3, answer = A3\<rparr>]) \<and>
   ((\<forall>i\<in>set items. item_html i \<noteq> []) \<longrightarrow> group_faqs items = pair_spec None items) \<and>
   (loop init_splitter ps = Inr st \<longrightarrow>
      (\<forall>i\<in>set (sections2 st). item_html i \<noteq> []) \<and>
      faq (finish st) = pair_spec None (sections2 st))"
proof (intro conjI impI)
  assume "Q1 \<noteq> [] \<and> Q2 \<noteq> [] \<and> Q3 \<noteq> []"
  then show "group_faqs
        [\<lparr>item_type = Question, item_html = Q1\<rparr>, \<lparr>item_type = Answer, item_html = A1\<rparr>,
         \<lparr>item_type = Question, item_html = Q2\<rparr>, \<lparr>item_type = Question, item_html = Q3\<rparr>,
         \<lparr>item_type = Answer, item_html = A3\<rparr>] =
      [\<lparr>question = Q1, answer = A1\<rparr>, \<lparr>question = Q2, answer = []\<rparr>,
       \<lparr>question = Q3, answer = A3\<rparr>]"
    by (simp add: group_faqs_def)
next
  assume "\<forall>i\<in>set items. item_html i \<noteq> []"
  then show "group_faqs items = pair_spec None items" by (rule group_faqs_spec)
next
  assume l: "loop init_splitter ps = Inr st"
  then show ne: "\<forall>i\<in>set (sections2 st). item_html i \<noteq> []" by (rule loop_sections2_nonempty)
  show "faq (finish st) = pair_spec None (sections2 st)"
    using group_faqs_spec [OF ne] by (simp add: finish_def)
qed

theorem faq_pairer_semantics_witness:
  "group_faqs
     [\<lparr>item_type = Question, item_html = question_p\<rparr>, \<lparr>item_type = Answer, item_html = plain_p\<rparr>,
      \<lparr>item_type = Question, item_html = question_p\<rparr>, \<lparr>item_type = Question, item_html = plain_p\<rparr>,
      \<lparr>item_type = Answer, item_html = bullet_li\<rparr>] =
   [\<lparr>question = question_p, answer = plain_p\<rparr>, \<lparr>question = question_p, answer = []\<rparr>,
    \<lparr>question = plain_p, answer = bullet_li\<rparr>] \<and>
   group_faqs [\<lparr>item_type = Answer, item_html = plain_p\<rparr>, \<lparr>item_type = Question, item_html = question_p\<rparr>] =
   [\<lparr>question = question_p, answer = []\<rparr>] \<and>
   faq (finish \<lparr>current_section = 2, sections0 = [], sections1 = [],
                 sections2 = [\<lparr>item_type = Question, item_html = question_p\<rparr>,
                              \<lparr>item_type = Answer, item_html = plain_p\<rparr>],
                 list_buffer = [], list_type = None\<rparr>) =
   [\<lparr>question = question_p, answer = plain_p\<rparr>]"
proof -
  have l: "loop init_splitter [sentinel_para, sentinel_para, question_para, plain_para] =
      Inr \<lparr>current_section = 2, sections0 = [], sections1 = [],
           sections2 = [\<lparr>item_type = Question, item_html = question_p\<rparr>,
                        \<lparr>item_type = Answer, item_html = plain_p\<rparr>],
           list_buffer = [], list_type = None\<rparr>"
    by (simp add: step_eval)
  show ?thesis
    using faq_pairer_semantics
      [where ?Q1.0 = question_p and ?A1.0 = plain_p and ?Q2.0 = question_p and ?Q3.0 = plain_p
         and ?A3.0 = bullet_li
         and items = "[\<lparr>item_type = Answer, item_html = plain_p\<rparr>,
                       \<lparr>item_type = Question, item_html = question_p\<rparr>]"
         and ps = "[sentinel_para, sentinel_para, question_para, plain_para]"
         and st = "\<lparr>current_section = 2, sections0 = [], sections1 = [],
            sections2 = [\<lparr>item_type = Question, item_html = question_p\<rparr>,
                         \<lparr>item_type = Answer, item_html = plain_p\<rparr>],
            list_buffer = [], list_type = None\<rparr>"]
      l
    by simp
qed

section \<open>Claims about runs and the list classifier\<close>

text \<open>
  C5, at its failing input. The run \<open>dangling_run\<close> lies in hyperlink markup whose
  relationship id \<open>rId9\<close> is not a key of \<^verbatim>\<open>related_parts\<close>: the lookup of line 19
  raises \<^verbatim>\<open>KeyError\<close>, nothing catches it, and the conversion of a document holding
  the run ends with that error instead of falling through to the formatted span.
\<close>

theorem dangling_hyperlink_raises:
  "run_to_html dangling_run = Inl (KeyError (py ''rId9'')) \<and>
   docx_to_html_sections [run_para (py ''site'') dangling_run] = Inl (KeyError (py ''rId9''))"
  by (simp add: dangling_example docx_to_html_sections_def step_def is_skipped_def
      is_sentinel_def sentinel_def para_to_html_def strip_eval)

text \<open>
  C7, as the claim states it, fails at its third and fourth check. A paragraph whose
  numbering metadata gives the indent level -1 is classified unordered (the \<^verbatim>\<open>else\<close> of
  line 84 takes every level other than 0), where the claim leaves it to the fourth
  check: no list item. A paragraph whose numbering-properties element is there and has
  no child is no list item for the code (the truth test of line 80 rejects the
  element), where the claim, with metadata present at level 0, says ordered.
\<close>

theorem classification_differs_from_claim:
  "detect_list_type (numbered_para (py ''h'') (Some (- 1))) = (True, Some UL) \<and>
   classify_claim (numbered_para (py ''h'') (Some (- 1))) = (False, None) \<and>
   detect_list_type childless_para = (False, None) \<and>
   classify_claim childless_para = (True, Some OL)"
proof -
  have "classify_claim (numbered_para (py ''h'') (Some (- 1))) = (False, None)"
    and "classify_claim childless_para = (True, Some OL)"
    by (simp_all add: classify_claim_def classify_eval)
  with detect_negative_level detect_childless show ?thesis by blast
qed

text \<open>
  C7, amended. The list classifier applies its checks in this order, the first match
  deciding: a bullet glyph as first character of the trimmed text gives an unordered
  item; else a lower-cased style name containing \<open>bullet\<close> gives unordered, one
  containing \<open>number\<close> ordered; else numbering metadata (a numbering-properties element
  with at least one child) gives ordered at indent level 0, which is also the level of
  an element that names none, and unordered at every other level, below 0 as well as
  above; a paragraph that none of this matches and that has no numbering-properties
  element is no list item. A numbering-properties element without a child is left
  open.
\<close>

theorem list_classification_amended:
  "((\<forall>e. numbering_metadata p = Some e \<longrightarrow> elem_truth e) \<longrightarrow>
      detect_list_type p = classify_amended p) \<and>
   (bullet_glyph_first p \<longrightarrow> detect_list_type p = (True, Some UL)) \<and>
   (\<not> bullet_glyph_first p \<and> style_contains ''bullet'' p \<longrightarrow>
      detect_list_type p = (True, Some UL)) \<and>
   (\<not> bullet_glyph_first p \<and> \<not> style_contains ''bullet'' p \<and> style_contains ''number'' p \<longrightarrow>
      detect_list_type p = (True, Some OL)) \<and>
   (\<not> bullet_glyph_first p \<and> \<not> style_contains ''bullet'' p \<and> \<not> style_contains ''number'' p \<longrightarrow>
      (\<forall>e. numbering_metadata p = Some e \<and> elem_truth e \<and> indent_level e = 0 \<longrightarrow>
         detect_list_type p = (True, Some OL)) \<and>
      (\<forall>e. numbering_metadata p = Some e \<and> elem_truth e \<and> indent_level e \<noteq> 0 \<longrightarrow>
         detect_list_type p = (True, Some UL)) \<and>
      (numbering_metadata p = None \<longrightarrow> detect_list_type p = (False, None)))"
  using detect_list_type_amended [of p] by (simp add: detect_list_type_checks)

theorem list_classification_amended_witness:
  "detect_list_type bullet_para = (True, Some UL) \<and>
   detect_list_type (styled_para (py ''- x'') (py ''List Number'')) = (True, Some UL) \<and>
   detect_list_type (styled_para (py ''h'') (py ''List Bullet Number'')) = (True, Some UL) \<and>
   detect_list_type (styled_para (py ''h'') (py ''List Number 2'')) = (True, Some OL) \<and>
   detect_list_type (numbered_para (py ''h'') (Some 0)) = (True, Some OL) \<and>
   detect_list_type (numbered_para (py ''h'') None) = (True, Some OL) \<and>
   detect_list_type (numbered_para (py ''h'') (Some 2)) = (True, Some UL) \<and>
   detect_list_type (numbered_para (py ''h'') (Some (- 1))) = (True, Some UL) \<and>
   detect_list_type plain_para = (False, None)"
  using list_classification_amended [of bullet_para]
    list_classification_amended [of "styled_para (py ''- x'') (py ''List Number'')"]
    list_classification_amended [of "styled_para (py ''h'') (py ''List Bullet Number'')"]
    list_classification_amended [of "styled_para (py ''h'') (py ''List Number 2'')"]
    list_classification_amended [of "numbered_para (py ''h'') (Some 0)"]
    list_classification_amended [of "numbered_para (py ''h'') None"]
    list_classification_amended [of "numbered_para (py ''h'') (Some 2)"]
    list_classification_amended [of "numbered_para (py ''h'') (Some (- 1))"]
    list_classification_amended [of plain_para]
  by (simp add: classify_amended_def classify_eval)

text \<open>
  C8. On the formatted-span path the text of the run is escaped character by
  character, \<open>&\<close> to \<open>&amp;\<close>, \<open><\<close> to \<open>&lt;\<close> and \<open>>\<close> to \<open>&gt;\<close> (the order of the
  three replacements, \<open>&\<close> first, leaves the entities just produced alone); an escaped
  text with a newline is split at the newlines, each line trimmed, the empty lines
  dropped and the rest joined with \<open><br>\<close>, and a text without newline stays as it is;
  the result is the body of the span.
\<close>

theorem span_escape_and_breaks:
  \<open>escape_html t = concat (map escape_char t) \<and>
   br_lines e =
     (if 10 \<in> set e
      then py_join (py ''<br>'') (filter (\<lambda>l. l \<noteq> []) (map py_strip (py_split 10 e)))
      else e) \<and>
   (\<not> raw_markup run \<and> unresolved run \<and> py_strip (run_text run) \<noteq> [] \<longrightarrow>
      run_to_html run =
        Inr (py ''<span style="'' @ style_str run @ py ''">'' @
             br_lines (escape_html (run_text run)) @ py ''</span>''))\<close>
  using escape_html_chars [of t] br_lines_spec [of e] run_to_html_span [of run]
  by (simp add: span_html_def)

theorem span_escape_and_breaks_witness:
  \<open>escape_html amp_text = py ''a &amp; b &lt; c'' \<and>
   br_lines multiline_text = py ''a<br>b'' \<and>
   run_to_html (text_run multiline_text) =
     Inr (py ''<span style="font-weight:normal;">a<br>b</span>'')\<close>
  using span_escape_and_breaks [of amp_text multiline_text "text_run multiline_text"]
    span_escape_and_breaks [of multiline_text multiline_text "text_run multiline_text"]
  by (simp add: amp_text_def multiline_text_def escape_char_def raw_markup_def unresolved_def
      hyperlink_target_def style_str_def py_startswith_def strip_eval)

text \<open>
  C10. On the hyperlink path nothing is escaped: when the relationship of the run
  resolves, the target and the trimmed text of the run stand in the anchor element as
  they are, so \<open>&\<close>, \<open><\<close>, \<open>>\<close> and the double quote of a link text or of a target
  reach the output unchanged (a run that is raw markup is returned trimmed, unchanged
  as well), while the formatted-span path turns \<open>&\<close>, \<open><\<close> and \<open>>\<close> of the same text
  into entities.
\<close>

theorem hyperlink_not_escaped:
  \<open>hyperlinks run = Some r_id # others \<and> r_id \<noteq> [] \<and> related_parts run r_id = Some url \<and>
   url \<noteq> [] \<longrightarrow>
     run_to_html run =
       Inr (if raw_markup run then py_strip (run_text run)
            else py ''<a href="'' @ url @ py ''" target="_blank">'' @ py_strip (run_text run) @
                 py ''</a>'')\<close>
  using run_to_html_anchor [of run url] hyperlink_target_resolved [of run r_id others url]
  by blast

theorem hyperlink_not_escaped_witness:
  \<open>run_to_html (link_run quoted_text (py ''rId1'') [py ''rId1'' \<mapsto> quoted_url]) =
     Inr (py ''<a href="https://e.x/?p=1&q="2"" target="_blank">a&b<c>"d"</a>'') \<and>
   run_to_html (text_run quoted_text) =
     Inr (py ''<span style="font-weight:normal;">a&amp;b&lt;c&gt;"d"</span>'')\<close>
  using hyperlink_not_escaped
    [of "link_run quoted_text (py ''rId1'') [py ''rId1'' \<mapsto> quoted_url]" "py ''rId1''" "[]"
        quoted_url]
    quoted_examples(2)
  by (simp add: quoted_text_def quoted_url_def raw_markup_def py_startswith_def strip_eval)

section \<open>Claims about the conversion as a whole\<close>



section \<open>Claims about the section splitter\<close>




text \<open>
  C2, as the claim states it, fails: a question after a third sentinel gives no pair,
  the same question without that sentinel gives one.
\<close>

theorem sentinel_in_faq_has_effect:
  "docx_to_html_sections [sentinel_para, sentinel_para, sentinel_para, question_para] =
     Inr \<lparr>head = [], text_out = [], faq = []\<rparr> \<and>
   docx_to_html_sections [sentinel_para, sentinel_para, question_para] =
     Inr \<lparr>head = [], text_out = [], faq = [\<lparr>question = question_p, answer = []\<rparr>]\<rparr>"
  using docx_late_question docx_faq_doc by simp

text \<open>
  C2, amended. A sentinel met in state FAQ moves the section counter past FAQ: when
  the whole document converts, no paragraph after that sentinel is added to any of the
  three outputs, and the result is the result of the document cut off before that
  sentinel.
\<close>

theorem sentinel_in_faq_ends_processing:
  "loop init_splitter pre = Inr st \<and> current_section st = 2 \<and> is_sentinel s \<and>
   loop init_splitter (pre @ s # post) = Inr st' \<longrightarrow>
     3 \<le> current_section st' \<and> sections0 st' = sections0 st \<and>
     sections1 st' = sections1 st \<and> sections2 st' = sections2 st \<and>
     docx_to_html_sections (pre @ s # post) = docx_to_html_sections pre"
  using sentinel_in_faq [of pre st s post st'] by blast

theorem sentinel_in_faq_ends_processing_witness:
  "docx_to_html_sections
     [sentinel_para, sentinel_para, question_para, sentinel_para, question_para] =
   docx_to_html_sections [sentinel_para, sentinel_para, question_para] \<and>
   docx_to_html_sections [sentinel_para, sentinel_para, question_para] =
     Inr \<lparr>head = [], text_out = [], faq = [\<lparr>question = question_p, answer = []\<rparr>]\<rparr>"
  using sentinel_in_faq_ends_processing
    [of "[sentinel_para, sentinel_para, question_para]"
        "\<lparr>current_section = 2, sections0 = [], sections1 = [],
          sections2 = [\<lparr>item_type = Question, item_html = question_p\<rparr>],
          list_buffer = [], list_type = None\<rparr>"
        sentinel_para "[question_para]"
        "\<lparr>current_section = 3, sections0 = [], sections1 = [],
          sections2 = [\<lparr>item_type = Question, item_html = question_p\<rparr>],
          list_buffer = [], list_type = None\<rparr>"]
    loop_faq_doc loop_extra_sentinel docx_faq_doc marker_examples(1)
  by simp

text \<open>
  C3, as the claim states it, fails: with the groups B, C and D empty, the text output
  is not the same for every A; a bullet paragraph in A reaches it through the shared
  list buffer.
\<close>

theorem text_not_from_B_alone:
  "docx_to_html_sections ([bullet_para] @ sentinel_para # [] @ sentinel_para # [] @ sentinel_para # []) =
     Inr \<lparr>head = [], text_out = py ''<ul>'' @ bullet_li @ py ''</ul>'', faq = []\<rparr> \<and>
   docx_to_html_sections ([] @ sentinel_para # [] @ sentinel_para # [] @ sentinel_para # []) =
     Inr \<lparr>head = [], text_out = [], faq = []\<rparr>"
  using docx_bullet_three_sentinels docx_three_sentinels by simp

text \<open>
  C3, amended. For groups A, B and C without sentinel, three sentinels and any D, a
  conversion that succeeds returns the head of A converted alone, the text of A and B
  (the document A, sentinel, B converted alone: the paragraphs of B and the list items
  of A that the shared buffer carries over), and the pairs of C (the document of two
  sentinels and C converted alone); D adds nothing: the result is that of the document
  cut off after the third sentinel.
\<close>

theorem three_sentinels_sections:
  "(\<forall>p\<in>set A. \<not> is_sentinel p) \<and> (\<forall>p\<in>set B. \<not> is_sentinel p) \<and>
   (\<forall>p\<in>set C. \<not> is_sentinel p) \<and> is_sentinel s1 \<and> is_sentinel s2 \<and> is_sentinel s3 \<and>
   docx_to_html_sections (A @ s1 # B @ s2 # C @ s3 # D) = Inr r \<longrightarrow>
     (\<exists>rA rB rC. docx_to_html_sections A = Inr rA \<and>
        docx_to_html_sections (A @ s1 # B) = Inr rB \<and>
        docx_to_html_sections (s1 # s2 # C) = Inr rC \<and>
        head r = head rA \<and> text_out r = text_out rB \<and> faq r = faq rC \<and>
        docx_to_html_sections (A @ s1 # B @ s2 # C @ [s3]) = Inr r)"
  using three_sentinels [of A B C s1 s2 s3 D r] by blast

theorem three_sentinels_sections_witness:
  "\<exists>rA rB rC. docx_to_html_sections [plain_para, bullet_para] = Inr rA \<and>
     docx_to_html_sections [plain_para, bullet_para, sentinel_para, plain_para] = Inr rB \<and>
     docx_to_html_sections [sentinel_para, sentinel_para, question_para, plain_para] = Inr rC \<and>
     plain_p = head rA \<and> py ''<ul>'' @ bullet_li @ py ''</ul>'' @ plain_p = text_out rB \<and>
     [\<lparr>question = question_p, answer = plain_p\<rparr>] = faq rC \<and>
     docx_to_html_sections
       [plain_para, bullet_para, sentinel_para, plain_para, sentinel_para, question_para,
        plain_para, sentinel_para] =
     Inr \<lparr>head = plain_p, text_out = py ''<ul>'' @ bullet_li @ py ''</ul>'' @ plain_p,
          faq = [\<lparr>question = question_p, answer = plain_p\<rparr>]\<rparr>"
  using three_sentinels_sections
    [of "[plain_para, bullet_para]" "[plain_para]" "[question_para, plain_para]"
        sentinel_para sentinel_para sentinel_para "[bullet_para]"
        "\<lparr>head = plain_p, text_out = py ''<ul>'' @ bullet_li @ py ''</ul>'' @ plain_p,
          faq = [\<lparr>question = question_p, answer = plain_p\<rparr>]\<rparr>"]
    docx_four_sections marker_examples
  by (simp add: four_sections_def)

text \<open>
  C6. The head output is built only from the elements of the paragraphs that are
  rendered in state HEAD and are no list items, each of them a \<open><p>\<close> element; a
  list-classified paragraph met in state HEAD goes to the list buffer and leaves the
  head output as it is.
\<close>

theorem head_excludes_list_items:
  "(docx_to_html_sections ps = Inr r \<longrightarrow> head r = py_strip (concat (head_elems ps))) \<and>
   (\<forall>e\<in>set (head_elems ps). \<exists>inner. e = py ''<p>'' @ inner @ py ''</p>'') \<and>
   (current_section st = 0 \<and> \<not> is_skipped p \<and> \<not> is_sentinel p \<and>
    para_to_html p = Inr (h, Some t) \<and> h \<noteq> [] \<longrightarrow>
      step st p = Inr (on_list_item st h t) \<and>
      sections0 (on_list_item st h t) = sections0 st \<and>
      h \<in> set (list_buffer (on_list_item st h t)))"
proof (intro conjI impI ballI)
  assume "docx_to_html_sections ps = Inr r"
  then obtain st' where l: "loop init_splitter ps = Inr st'" and r: "r = finish st'"
    by (auto simp: docx_to_html_sections_def split: sum.splits)
  from loop_head_elems [OF l] have "sections0 st' = head_elems ps"
    by (simp add: init_splitter_def)
  with r show "head r = py_strip (concat (head_elems ps))" by (simp add: finish_def)
next
  fix e
  assume "e \<in> set (head_elems ps)"
  then show "\<exists>inner. e = py ''<p>'' @ inner @ py ''</p>''" by (rule head_elems_plain)
next
  assume a: "current_section st = 0 \<and> \<not> is_skipped p \<and> \<not> is_sentinel p \<and>
    para_to_html p = Inr (h, Some t) \<and> h \<noteq> []"
  then show "step st p = Inr (on_list_item st h t)" by (simp add: step_def)
  show "sections0 (on_list_item st h t) = sections0 st" by simp
  show "h \<in> set (list_buffer (on_list_item st h t))" by simp
qed

theorem head_excludes_list_items_witness:
  "head_elems four_sections = [plain_p] \<and>
   docx_to_html_sections four_sections =
     Inr \<lparr>head = plain_p, text_out = py ''<ul>'' @ bullet_li @ py ''</ul>'' @ plain_p,
          faq = [\<lparr>question = question_p, answer = plain_p\<rparr>]\<rparr> \<and>
   step init_splitter bullet_para = Inr (on_list_item init_splitter bullet_li UL) \<and>
   sections0 (on_list_item init_splitter bullet_li UL) = []"
  using head_excludes_list_items
    [of four_sections
        "\<lparr>head = plain_p, text_out = py ''<ul>'' @ bullet_li @ py ''</ul>'' @ plain_p,
          faq = [\<lparr>question = question_p, answer = plain_p\<rparr>]\<rparr>"
        init_splitter bullet_para bullet_li UL]
    docx_four_sections
  by (simp add: four_sections_def marker_examples para_to_html_examples init_splitter_def)

end
